theory Spec2Isabelle
  imports Complex_Main "HOL-Library.Sublist"
begin

section \<open>Python values used by the services\<close>

text \<open>
  Python strings are modelled as \<open>string\<close>, one \<open>char\<close> per code point, so the model
  covers the code points below 256. Floats are modelled as \<open>real\<close>: the services only
  compare, clamp and average them.
\<close>

text \<open>\<open>str.isspace\<close> on one code point below 256.\<close>

definition py_isspace :: "char \<Rightarrow> bool" where
  "py_isspace c =
     (let n = (of_char c :: nat)
      in (9 \<le> n \<and> n \<le> 13) \<or> (28 \<le> n \<and> n \<le> 32) \<or> n = 133 \<or> n = 160)"

text \<open>\<open>str.lower\<close> on one code point below 256 (ASCII and Latin-1 capitals).\<close>

definition py_lower_char :: "char \<Rightarrow> char" where
  "py_lower_char c =
     (let n = (of_char c :: nat)
      in if (65 \<le> n \<and> n \<le> 90) \<or> (192 \<le> n \<and> n \<le> 222 \<and> n \<noteq> 215)
         then char_of (n + 32) else c)"

definition py_lower :: "string \<Rightarrow> string" where
  "py_lower s = map py_lower_char s"

definition py_strip :: "string \<Rightarrow> string" where
  "py_strip s = rev (dropWhile py_isspace (rev (dropWhile py_isspace s)))"

text \<open>The Python values the services return: \<open>None\<close>, strings, Booleans, floats, lists, dicts.\<close>

datatype py_value =
    PyNone
  | PyStr string
  | PyBool bool
  | PyFloat real
  | PyList "py_value list"
  | PyDict "(string \<times> py_value) list"

text \<open>Python's truth value of an object.\<close>

fun truthy :: "py_value \<Rightarrow> bool" where
  "truthy PyNone = False"
| "truthy (PyStr s) = (s \<noteq> [])"
| "truthy (PyBool b) = b"
| "truthy (PyFloat x) = (x \<noteq> 0)"
| "truthy (PyList xs) = (xs \<noteq> [])"
| "truthy (PyDict kvs) = (kvs \<noteq> [])"

datatype py_exn = Exn string

section \<open>Regular expressions as Python's \<open>re\<close> runs them\<close>

definition re_word :: "char \<Rightarrow> bool" where
  "re_word c =
     (let n = (of_char c :: nat)
      in (48 \<le> n \<and> n \<le> 57) \<or> (65 \<le> n \<and> n \<le> 90) \<or> n = 95 \<or> (97 \<le> n \<and> n \<le> 122)
         \<or> n = 170 \<or> n = 178 \<or> n = 179 \<or> n = 181 \<or> n = 185 \<or> n = 186
         \<or> (188 \<le> n \<and> n \<le> 190) \<or> (192 \<le> n \<and> n \<noteq> 215 \<and> n \<noteq> 247))"

definition re_digit :: "char \<Rightarrow> bool" where
  "re_digit c = (let n = (of_char c :: nat) in 48 \<le> n \<and> n \<le> 57)"

datatype atom =
    Ch "char \<Rightarrow> bool"
  | Star "char \<Rightarrow> bool"
  | Lazy "char \<Rightarrow> bool"
  | Lits "string list"
  | Bol
  | Eol

fun atom_size :: "atom \<Rightarrow> nat" where
  "atom_size (Lits alts) = Suc (length alts)"
| "atom_size _ = 1"

function rmatch :: "bool \<Rightarrow> atom list \<Rightarrow> char option \<Rightarrow> string \<Rightarrow> string option" where
  "rmatch ml [] prev s = Some s"
| "rmatch ml (Ch p # r) prev [] = None"
| "rmatch ml (Ch p # r) prev (c # cs) = (if p c then rmatch ml r (Some c) cs else None)"
| "rmatch ml (Star p # r) prev [] = rmatch ml r prev []"
| "rmatch ml (Star p # r) prev (c # cs) =
     (if p c
      then (case rmatch ml (Star p # r) (Some c) cs of
              Some rest \<Rightarrow> Some rest
            | None \<Rightarrow> rmatch ml r prev (c # cs))
      else rmatch ml r prev (c # cs))"
| "rmatch ml (Lazy p # r) prev [] = rmatch ml r prev []"
| "rmatch ml (Lazy p # r) prev (c # cs) =
     (case rmatch ml r prev (c # cs) of
        Some rest \<Rightarrow> Some rest
      | None \<Rightarrow> if p c then rmatch ml (Lazy p # r) (Some c) cs else None)"
| "rmatch ml (Lits [] # r) prev s = None"
| "rmatch ml (Lits (a # alts) # r) prev s =
     (case (if prefix a s
            then rmatch ml r (if a = [] then prev else Some (last a)) (drop (length a) s)
            else None) of
        Some rest \<Rightarrow> Some rest
      | None \<Rightarrow> rmatch ml (Lits alts # r) prev s)"
| "rmatch ml (Bol # r) prev s =
     (if prev = None \<or> (ml \<and> prev = Some (CHR 0x0A)) then rmatch ml r prev s else None)"
| "rmatch ml (Eol # r) prev s =
     (if s = [] \<or> (ml \<and> hd s = CHR 0x0A) \<or> (\<not> ml \<and> s = [CHR 0x0A])
      then rmatch ml r prev s else None)"
  by pat_completeness auto
termination
  by (relation "measures [\<lambda>(ml, r, prev, s). length s, \<lambda>(ml, r, prev, s). sum_list (map atom_size r)]") auto

lemma rmatch_length: "rmatch ml r prev s = Some rest \<Longrightarrow> length rest \<le> length s"
proof (induction ml r prev s arbitrary: rest rule: rmatch.induct)
  case (5 ml p r prev c cs)
  then show ?case by (fastforce split: if_splits option.splits)
next
  case (7 ml p r prev c cs)
  then show ?case by (fastforce split: if_splits option.splits)
next
  case (9 ml a alts r prev s)
  then show ?case by (fastforce split: if_splits option.splits)
qed (auto split: if_splits)

fun re_find :: "bool \<Rightarrow> atom list \<Rightarrow> char option \<Rightarrow> string \<Rightarrow> (string \<times> string) option" where
  "re_find ml r prev [] =
     (case rmatch ml r prev [] of Some rest \<Rightarrow> Some ([], rest) | None \<Rightarrow> None)"
| "re_find ml r prev (c # cs) =
     (case rmatch ml r prev (c # cs) of
        Some rest \<Rightarrow> Some ([], rest)
      | None \<Rightarrow> (case re_find ml r (Some c) cs of
                   Some (skipped, rest) \<Rightarrow> Some (c # skipped, rest)
                 | None \<Rightarrow> None))"

lemma re_find_length: "re_find ml r prev s = Some (skipped, rest) \<Longrightarrow> length skipped + length rest \<le> length s"
proof (induction s arbitrary: prev skipped rest)
  case Nil
  then show ?case by (auto split: option.splits dest: rmatch_length)
next
  case (Cons c cs)
  then show ?case by (fastforce split: option.splits dest: rmatch_length)
qed

definition re_search :: "bool \<Rightarrow> atom list \<Rightarrow> string \<Rightarrow> bool" where
  "re_search ml r s = (re_find ml r None s \<noteq> None)"

definition re_match :: "bool \<Rightarrow> atom list \<Rightarrow> string \<Rightarrow> bool" where
  "re_match ml r s = (rmatch ml r None s \<noteq> None)"

definition prev_after :: "char option \<Rightarrow> string \<Rightarrow> string \<Rightarrow> char option" where
  "prev_after prev s rest =
     (let consumed = take (length s - length rest) s
      in if consumed = [] then prev else Some (last consumed))"

function re_sub_from :: "bool \<Rightarrow> atom list \<Rightarrow> string \<Rightarrow> char option \<Rightarrow> string \<Rightarrow> string" where
  "re_sub_from ml r repl prev s =
     (case re_find ml r prev s of
        None \<Rightarrow> s
      | Some (skipped, rest) \<Rightarrow>
          if length skipped + length rest < length s
          then skipped @ repl @ re_sub_from ml r repl (prev_after prev s rest) rest
          else (case rest of
                  [] \<Rightarrow> skipped @ repl
                | c # cs \<Rightarrow> skipped @ repl @ c # re_sub_from ml r repl (Some c) cs))"
  by pat_completeness auto
termination
  apply (relation "measure (\<lambda>(ml, r, repl, prev, s). length s)")
    apply simp
   apply simp
  apply (auto dest: re_find_length)
  done

declare re_sub_from.simps [simp del]

definition re_sub :: "bool \<Rightarrow> atom list \<Rightarrow> string \<Rightarrow> string \<Rightarrow> string" where
  "re_sub ml r repl s = re_sub_from ml r repl None s"

definition lit :: "string \<Rightarrow> atom list" where
  "lit s = map (\<lambda>c. Ch (\<lambda>d. d = c)) s"

definition lit_i :: "string \<Rightarrow> atom list" where
  "lit_i s = map (\<lambda>c. Ch (\<lambda>d. py_lower_char d = py_lower_char c)) s"

definition any_char :: "char \<Rightarrow> bool" where "any_char c = True"
definition not_newline :: "char \<Rightarrow> bool" where "not_newline c = (c \<noteq> CHR 0x0A)"
definition newline :: "char \<Rightarrow> bool" where "newline c = (c = CHR 0x0A)"

section \<open>GroqService\<close>

text \<open>
  What the HTTP call of \<open>_chat\<close> did: it raised or answered with a status other than 200
  (\<open>Api_failure\<close>), or it delivered the content of the first choice (\<open>Api_content\<close>).
\<close>

datatype api_outcome = Api_failure | Api_content string

text \<open>\<open>GroqService._chat\<close>: \<open>None\<close> on every failure, the stripped content otherwise.\<close>

fun chat :: "api_outcome \<Rightarrow> string option" where
  "chat Api_failure = None"
| "chat (Api_content c) = Some (py_strip c)"

definition valid_intents :: "string list" where
  "valid_intents = [''greeting'', ''farewell'', ''pricing'', ''products'', ''support'',
                    ''technical'', ''general'', ''irrelevant'']"

text \<open>\<open>GroqService.analyze_query_intent\<close>, as a function of what \<open>_chat\<close> returned.\<close>

definition analyze_query_intent :: "string option \<Rightarrow> string" where
  "analyze_query_intent result =
     (case result of
        None \<Rightarrow> ''general''
      | Some r \<Rightarrow> if r \<noteq> [] \<and> py_lower r \<in> set valid_intents then py_lower r
                  else ''general'')"

text \<open>
  \<open>GroqService.check_relevance\<close>: Python's \<open>result and (...)\<close> returns \<open>result\<close> itself
  when it is falsy (\<open>None\<close> or the empty string) and the comparison's Boolean otherwise.
\<close>

definition check_relevance :: "string option \<Rightarrow> py_value" where
  "check_relevance result =
     (case result of
        None \<Rightarrow> PyNone
      | Some r \<Rightarrow> if r = [] then PyStr r
                  else PyBool (py_lower (py_strip r) = ''relevant''))"

subsection \<open>Canned texts\<close>

text \<open>
  The bullet U+2022 of the canned texts lies outside the modelled code points; it is
  written as its three UTF-8 bytes. No property below depends on it.
\<close>

definition bullet :: string where
  "bullet = [CHR 0xE2, CHR 0x80, CHR 0xA2]"

definition signature_text :: string where
  "signature_text = ''Best regards,\<newline>TechCorp Solutions Customer Service''"

text \<open>\<open>GroqService._fallback_response\<close>; the query is not used by the source either.\<close>

definition fallback_response :: "string \<Rightarrow> string \<Rightarrow> string" where
  "fallback_response query context =
     (let base_response =
        (if context \<noteq> []
         then ''**Service Information Available**\<newline>\<newline>''
              @ ''I have some information about this topic, but I need to verify the specific details. Based on our documentation:\<newline>\<newline>''
              @ bullet @ '' '' @ take 150 context @ ''...\<newline>\<newline>''
              @ ''**For Accurate Information:**\<newline>''
              @ bullet @ '' **Contact:** sales@techcorp.com\<newline>''
              @ bullet @ '' **Phone:** **+1 (555) 123-4568**\<newline>''
              @ bullet @ '' **Response Time:** Within **2 business hours**''
         else ''**Information Request**\<newline>\<newline>''
              @ ''I apologize, but I don'' @ [CHR 0x27]
              @ ''t have specific information about that topic in my knowledge base.\<newline>\<newline>''
              @ ''**Available Support:**\<newline>''
              @ bullet @ '' **Services:** Cloud Migration, AI/ML Solutions, Cybersecurity, Web Development\<newline>''
              @ bullet @ '' **Contact:** sales@techcorp.com\<newline>''
              @ bullet @ '' **Phone:** **+1 (555) 123-4568**\<newline>''
              @ bullet @ '' **Response Time:** Within **2 business hours**'')
      in base_response @ ''\<newline>\<newline>'' @ signature_text)"

subsection \<open>\<open>_clean_response\<close>\<close>

definition placeholder_patterns :: "string list" where
  "placeholder_patterns =
     [''[Your Name]'', ''[Agent Name]'', ''[Customer Service Representative]'',
      ''[Representative Name]'', ''[Name]'', ''[Agent]'', ''[CSR]'']"

text \<open>The loop over \<open>placeholder_patterns\<close>: each is a literal, matched ignoring case.\<close>

definition replace_placeholders :: "string \<Rightarrow> string" where
  "replace_placeholders response =
     fold (\<lambda>pattern cleaned.
             re_sub False (lit_i pattern) ''TechCorp Solutions Customer Service'' cleaned)
          placeholder_patterns response"

text \<open>\<open>^.*?W.*?\n.*?\n\<close> with IGNORECASE and DOTALL, for a closing word \<open>W\<close>.\<close>

definition leading_signature :: "string \<Rightarrow> atom list" where
  "leading_signature w =
     [Bol, Lazy any_char] @ lit_i w @ [Lazy any_char, Ch newline, Lazy any_char, Ch newline]"

definition strip_leading_signatures :: "string \<Rightarrow> string" where
  "strip_leading_signatures cleaned =
     re_sub False (leading_signature ''Thank you,'') []
       (re_sub False (leading_signature ''Sincerely,'') []
          (re_sub False (leading_signature ''Best regards,'') [] cleaned))"

text \<open>\<open>\n\s*\<close>, the start of every trailing-signature pattern.\<close>

definition nl_ws :: "atom list" where
  "nl_ws = [Ch newline, Star py_isspace]"

text \<open>\<open>.*$\<close> with DOTALL, their end.\<close>

definition to_end :: "atom list" where
  "to_end = [Star any_char, Eol]"

text \<open>\<open>signature_patterns\<close>, in the source's order; all run with IGNORECASE, MULTILINE, DOTALL.\<close>

definition signature_patterns :: "atom list list" where
  "signature_patterns =
     [nl_ws @ lit_i ''Best regards,'' @ to_end,
      nl_ws @ lit_i ''Sincerely,'' @ to_end,
      nl_ws @ lit_i ''Thank you,'' @ to_end,
      nl_ws @ lit_i ''Regards,'' @ to_end,
      nl_ws @ lit_i ''TechCorp Solutions'' @ to_end,
      nl_ws @ lit_i ''Customer Service'' @ to_end,
      nl_ws @ lit_i ''AI Assistant'' @ to_end,
      nl_ws @ lit_i ''Best regards,'' @ [Star py_isspace]
        @ lit_i ''TechCorp Solutions Customer Service'' @ to_end,
      nl_ws @ lit_i ''Best regards,'' @ [Star py_isspace] @ nl_ws
        @ lit_i ''TechCorp Solutions Customer Service'' @ to_end,
      nl_ws @ lit_i ''Best regards,'' @ [Star py_isspace] @ nl_ws
        @ lit_i ''TechCorp Solutions'' @ [Star py_isspace] @ nl_ws
        @ lit_i ''Customer Service'' @ to_end]"

text \<open>\<open>\n\s*Best regards,.*TechCorp.*Service.*$\<close>, applied after the list.\<close>

definition final_signature_pattern :: "atom list" where
  "final_signature_pattern =
     nl_ws @ lit_i ''Best regards,'' @ [Star any_char] @ lit_i ''TechCorp''
       @ [Star any_char] @ lit_i ''Service'' @ to_end"

definition strip_trailing_signatures :: "string \<Rightarrow> string" where
  "strip_trailing_signatures cleaned =
     re_sub True final_signature_pattern []
       (fold (\<lambda>pattern c. re_sub True pattern [] c) signature_patterns cleaned)"

text \<open>The text the length gate looks at: all substitutions, then \<open>strip()\<close>.\<close>

definition cleaned_text :: "string \<Rightarrow> string" where
  "cleaned_text response =
     py_strip (strip_trailing_signatures (strip_leading_signatures (replace_placeholders response)))"

text \<open>The class \<open>[\w\s\-:]\<close>.\<close>

definition header_char :: "char \<Rightarrow> bool" where
  "header_char c = (re_word c \<or> py_isspace c \<or> c = CHR ''-'' \<or> c = CHR '':'')"

text \<open>\<open>^(\*\*|#|##|###|####|#####|######) ?[\w\s\-:]+(\*\*)?:?$\<close>, no flags, under \<open>re.match\<close>.\<close>

definition markdown_header :: "atom list" where
  "markdown_header =
     [Bol, Lits [''**'', ''#'', ''##'', ''###'', ''####'', ''#####'', ''######''],
      Lits ['' '', ''''], Ch header_char, Star header_char, Lits [''**'', ''''],
      Lits ['':'', ''''], Eol]"

text \<open>The three conditions under which the cleaned text is replaced by the fallback.\<close>

definition needs_fallback :: "string \<Rightarrow> bool" where
  "needs_fallback cleaned =
     (length cleaned < 20
      \<or> py_lower cleaned \<in> set ['''', ''dear customer'', ''dear valued customer'']
      \<or> re_match False markdown_header cleaned)"

text \<open>\<open>re.search(r'best regards.*techcorp.*service', ...)\<close> with IGNORECASE and DOTALL.\<close>

definition has_signature :: "string \<Rightarrow> bool" where
  "has_signature cleaned =
     re_search False
       (lit_i ''best regards'' @ [Star any_char] @ lit_i ''techcorp'' @ [Star any_char]
          @ lit_i ''service'')
       cleaned"

text \<open>\<open>GroqService._clean_response\<close>.\<close>

definition clean_response :: "string \<Rightarrow> string" where
  "clean_response response =
     (if response = [] then fallback_response [] []
      else let cleaned = cleaned_text response
           in if needs_fallback cleaned then fallback_response [] []
              else if \<not> has_signature cleaned
                   then cleaned @ ''\<newline>\<newline>'' @ signature_text
                   else cleaned)"

text \<open>
  \<open>GroqService.generate_response\<close>, as a function of what the HTTP call did; the prompt
  it builds only travels to the API.
\<close>

definition generate_response :: "api_outcome \<Rightarrow> string \<Rightarrow> string \<Rightarrow> string" where
  "generate_response outcome query context =
     (case chat outcome of
        None \<Rightarrow> fallback_response query context
      | Some result \<Rightarrow> if result \<noteq> [] then clean_response result
                       else fallback_response query context)"

section \<open>More of Python and its libraries\<close>

text \<open>\<open>str(n)\<close> for a natural number.\<close>

definition digit_char :: "nat \<Rightarrow> char" where
  "digit_char d = char_of (48 + d)"

function str_nat :: "nat \<Rightarrow> string" where
  "str_nat n = (if n < 10 then [digit_char n] else str_nat (n div 10) @ [digit_char (n mod 10)])"
  by pat_completeness auto
termination
  by (relation "measure (\<lambda>n. n)") auto

declare str_nat.simps [simp del]

text \<open>\<open>sep.join(xs)\<close>.\<close>

fun py_join :: "string \<Rightarrow> string list \<Rightarrow> string" where
  "py_join sep [] = []"
| "py_join sep [x] = x"
| "py_join sep (x # y # ys) = x @ sep @ py_join sep (y # ys)"

text \<open>\<open>sub in s\<close> for strings.\<close>

fun contains :: "string \<Rightarrow> string \<Rightarrow> bool" where
  "contains sub [] = (sub = [])"
| "contains sub (c # cs) = (prefix sub (c # cs) \<or> contains sub cs)"

text \<open>The slice \<open>xs[:k]\<close>: a negative \<open>k\<close> counts from the end.\<close>

definition py_take :: "int \<Rightarrow> 'a list \<Rightarrow> 'a list" where
  "py_take k xs = (if 0 \<le> k then take (nat k) xs else take (length xs - nat (- k)) xs)"

text \<open>\<open>os.path.join(a, b)\<close> on POSIX.\<close>

definition path_join :: "string \<Rightarrow> string \<Rightarrow> string" where
  "path_join a b =
     (if b \<noteq> [] \<and> hd b = CHR ''/'' then b
      else if a = [] \<or> last a = CHR ''/'' then a @ b
      else a @ ''/'' @ b)"

text \<open>
  \<open>np.argsort\<close>: the indices in ascending order of the values. Equal values keep their
  index order here; numpy's default sort promises no order among them, and no property
  below depends on one.
\<close>

definition argsort :: "real list \<Rightarrow> nat list" where
  "argsort xs = sort_key (\<lambda>i. xs ! i) [0..<length xs]"

text \<open>\<open>np.mean\<close> of a non-empty list.\<close>

definition mean :: "real list \<Rightarrow> real" where
  "mean xs = sum_list xs / real (length xs)"

section \<open>RAGService: data\<close>

text \<open>An entry of \<open>self.documents\<close>: a dict from field names to texts.\<close>

type_synonym document = "string \<rightharpoonup> string"

text \<open>
  A search result: both search methods set \<open>title\<close>, \<open>content\<close> and \<open>similarity\<close>; the
  TF-IDF search adds \<open>full_title\<close>, the FAISS search adds \<open>metadata\<close>.
\<close>

record hit =
  hit_title :: string
  hit_content :: string
  hit_similarity :: real
  hit_full_title :: "string option"
  hit_metadata :: "(string \<times> string) list option"

text \<open>A LangChain \<open>Document\<close>, as the retriever returns it.\<close>

record lc_document =
  page_content :: string
  metadata :: "(string \<times> string) list"

text \<open>
  A FAISS vector store, as far as the service looks into it: the docstore, from document
  ids to stored objects; an object without \<open>page_content\<close> is \<open>None\<close>.
\<close>

record vectorstore =
  docstore :: "(string \<times> string option) list"

text \<open>What lies on disk under the index path.\<close>

datatype index_file = Saved vectorstore | Unreadable

text \<open>The fitted TF-IDF matrix, named by the texts it was fitted on.\<close>

datatype tfidf = Tfidf "string list"

text \<open>An attribute that may not be set yet, may hold \<open>None\<close>, or holds a value.\<close>

datatype 'a attribute = Absent | Is_None | Holds 'a

text \<open>The methods whose calls the model records.\<close>

datatype event =
    Load_faiss_index
  | Load_knowledge_base
  | Load_sample_documents
  | Force_process_pdf
  | Process_pdf_and_index string
  | Search_documents
  | Search_documents_faiss

text \<open>The service object, the disk it persists to, and the calls made so far.\<close>

record rag =
  documents :: "document list"
  document_vectors :: "tfidf option"
  faiss_index :: "vectorstore attribute"
  vector_dim :: "nat option"
  knowledge_base_path :: string
  disk :: "string \<rightharpoonup> index_file"
  trace :: "event list"

definition log :: "event \<Rightarrow> rag \<Rightarrow> rag" where
  "log e s = s\<lparr>trace := trace s @ [e]\<rparr>"

text \<open>What \<open>knowledge_base.pkl\<close> unpickles to.\<close>

record kb_data =
  kb_documents :: "document list"
  kb_vectors :: "tfidf option"

text \<open>
  Everything outside the repository that the service calls: the file system, the PDF
  reader, the text splitter, the embedding model and vector store, the TF-IDF vectorizer,
  and the answers of the hosted model. Each call either raises or returns.
\<close>

record env =
  root_dir :: string
  listdir_root :: "py_exn + string list"
  listdir_company_documents :: "(py_exn + string list) option"
  pdf_pages :: "string \<Rightarrow> py_exn + string option list"
  split_text :: "string \<Rightarrow> string list"
  from_texts :: "string list \<Rightarrow> py_exn + vectorstore"
  save_local :: "vectorstore \<Rightarrow> py_exn option"
  embed_query_dim :: "py_exn + nat"
  pickle_load :: "(py_exn + kb_data) option"
  fit_transform :: "string list \<Rightarrow> py_exn + tfidf"
  tfidf_similarities :: "tfidf \<Rightarrow> string \<Rightarrow> py_exn + real list"
  retrieve :: "vectorstore \<Rightarrow> string \<Rightarrow> int \<Rightarrow> py_exn + lc_document list"
  greeting_reply :: api_outcome
  farewell_reply :: api_outcome
  relevance_reply :: api_outcome
  generation_reply :: api_outcome

section \<open>RAGService: methods\<close>

record pdf_info =
  available :: bool
  files :: "string list"
  directory :: string

definition no_pdf :: pdf_info where
  "no_pdf = \<lparr>available = False, files = [], directory = []\<rparr>"

text \<open>\<open>RAGService.get_pdf_info\<close>; \<open>os.listdir\<close> may raise, and nothing here catches it.\<close>

definition get_pdf_info :: "env \<Rightarrow> py_exn + pdf_info" where
  "get_pdf_info e =
     (case listdir_root e of
        Inl x \<Rightarrow> Inl x
      | Inr names \<Rightarrow>
          let pdf_files = filter (suffix ''.pdf'') names
          in if pdf_files \<noteq> []
             then Inr \<lparr>available = True, files = pdf_files, directory = root_dir e\<rparr>
             else (case listdir_company_documents e of
                     None \<Rightarrow> Inr no_pdf
                   | Some (Inl x) \<Rightarrow> Inl x
                   | Some (Inr names') \<Rightarrow>
                       let pdf_files' = filter (suffix ''.pdf'') names'
                       in if pdf_files' \<noteq> []
                          then Inr \<lparr>available = True, files = pdf_files',
                                    directory = path_join (root_dir e) ''company_documents''\<rparr>
                          else Inr no_pdf))"

text \<open>\<open>RAGService.preprocess_text\<close>.\<close>

definition kept_char :: "char \<Rightarrow> bool" where
  "kept_char c = (re_word c \<or> py_isspace c \<or> c \<in> set ''?:,.-()'')"

definition preprocess_text :: "string \<Rightarrow> string" where
  "preprocess_text text0 =
     (let text1 = py_lower text0;
          text2 = re_sub False [Ch py_isspace, Star py_isspace] '' '' text1;
          text3 = re_sub False [Ch (\<lambda>c. \<not> kept_char c)] [] text2;
          text4 = re_sub False [Ch (\<lambda>c. c = CHR ''$''), Ch re_digit, Star re_digit] ''price'' text3;
          text5 = re_sub False [Ch re_digit, Star re_digit, Ch (\<lambda>c. c = CHR ''%'')] ''percentage'' text4
      in py_strip text5)"

definition index_path :: "rag \<Rightarrow> string" where
  "index_path s = path_join (knowledge_base_path s) ''faiss_index''"

text \<open>
  \<open>RAGService.search_documents\<close>, the TF-IDF search. One pass of its loop over the top
  indices: \<open>results\<close> and \<open>max_sim\<close> are the two accumulators; an index past the end of
  \<open>self.documents\<close> raises \<open>IndexError\<close>, which the loop catches and skips, after \<open>max_sim\<close>
  has been updated.
\<close>

definition tfidf_hit :: "document \<Rightarrow> real \<Rightarrow> hit" where
  "tfidf_hit doc sim =
     \<lparr>hit_title = the (doc ''title''),
      hit_content = the (doc ''content''),
      hit_similarity = sim,
      hit_full_title = Some (case doc ''full_title'' of Some t \<Rightarrow> t | None \<Rightarrow> the (doc ''title'')),
      hit_metadata = None\<rparr>"

definition tfidf_step :: "real list \<Rightarrow> document list \<Rightarrow> hit list \<times> real \<Rightarrow> nat \<Rightarrow> hit list \<times> real" where
  "tfidf_step similarities docs acc idx =
     (case acc of (results, max_sim) \<Rightarrow>
        if similarities ! idx > 0.2
        then let max_sim' = max max_sim (similarities ! idx)
             in if idx < length docs
                then let doc = docs ! idx
                     in if doc ''title'' \<noteq> None \<and> doc ''content'' \<noteq> None
                        then (results @ [tfidf_hit doc (similarities ! idx)], max_sim')
                        else (results, max_sim')
                else (results, max_sim')
        else (results, max_sim))"

definition top_indices :: "real list \<Rightarrow> int \<Rightarrow> nat list" where
  "top_indices similarities top_k = py_take top_k (rev (argsort similarities))"

definition search_documents :: "env \<Rightarrow> rag \<Rightarrow> string \<Rightarrow> int \<Rightarrow> hit list \<times> rag" where
  "search_documents e s0 query top_k =
     (let s = log Search_documents s0
      in case document_vectors s of
           None \<Rightarrow> ([], s)
         | Some vectors \<Rightarrow>
             if documents s = [] then ([], s)
             else (case tfidf_similarities e vectors (preprocess_text query) of
                     Inl x \<Rightarrow> ([], s)
                   | Inr similarities \<Rightarrow>
                       (case foldl (tfidf_step similarities (documents s)) ([], 0)
                               (top_indices similarities top_k) of
                          (results, max_sim) \<Rightarrow>
                            if max_sim < 0.4 then ([], s) else (results, s))))"

text \<open>
  \<open>RAGService.search_documents_faiss\<close>. The similarity of a result is made from its rank.
  When the retriever raises, the handler calls \<open>search_documents\<close>.
\<close>

definition faiss_hit :: "nat \<Rightarrow> lc_document \<Rightarrow> hit" where
  "faiss_hit i doc =
     \<lparr>hit_title = ''Document '' @ str_nat (i + 1),
      hit_content = page_content doc,
      hit_similarity = 0.8 - real i * 0.1,
      hit_full_title = None,
      hit_metadata = Some (metadata doc)\<rparr>"

definition faiss_step :: "hit list \<times> real \<Rightarrow> nat \<times> lc_document \<Rightarrow> hit list \<times> real" where
  "faiss_step acc p =
     (case acc of (results, max_sim) \<Rightarrow>
        case p of (i, doc) \<Rightarrow>
          let sim = 0.8 - real i * 0.1
          in if sim > 0.2
             then (results @ [faiss_hit i doc], max max_sim sim)
             else (results, max_sim))"

definition index_unavailable :: "rag \<Rightarrow> bool" where
  "index_unavailable s =
     (faiss_index s = Absent \<or> faiss_index s = Is_None \<or> documents s = [])"

definition search_documents_faiss :: "env \<Rightarrow> rag \<Rightarrow> string \<Rightarrow> int \<Rightarrow> hit list \<times> rag" where
  "search_documents_faiss e s0 query top_k =
     (let s = log Search_documents_faiss s0
      in case faiss_index s of
           Absent \<Rightarrow> search_documents e s query top_k
         | Is_None \<Rightarrow> search_documents e s query top_k
         | Holds index \<Rightarrow>
             if documents s = [] then search_documents e s query top_k
             else (case retrieve e index query top_k of
                     Inl x \<Rightarrow> search_documents e s query top_k
                   | Inr docs \<Rightarrow>
                       (case foldl faiss_step ([], 0) (enumerate 0 docs) of
                          (results, max_sim) \<Rightarrow>
                            if max_sim < 0.4 then ([], s) else (results, s))))"

section \<open>A sample deployment\<close>

text \<open>
  One concrete environment and two service states, for running the methods: a project
  directory with one PDF of three pages, the second blank; a splitter that cuts at the
  blank line between pages; an index over the two chunks.
\<close>

definition sample_index :: vectorstore where
  "sample_index = \<lparr>docstore = [(''c1'', Some ''TechCorp builds software.''),
                               (''c2'', Some ''Support is open all week.'')]\<rparr>"

definition sample_env :: env where
  "sample_env =
     \<lparr>root_dir = ''/app'',
      listdir_root = Inr [''run.py'', ''company.pdf''],
      listdir_company_documents = None,
      pdf_pages = (\<lambda>path. Inr [Some '' TechCorp builds software.'', Some ''  '',
                                  Some ''Support is open all week. '']),
      split_text = (\<lambda>t. [take 25 t, drop 27 t]),
      from_texts = (\<lambda>texts. Inr \<lparr>docstore = zip [''c1'', ''c2''] (map Some texts)\<rparr>),
      save_local = (\<lambda>index. None),
      embed_query_dim = Inr 384,
      pickle_load = None,
      fit_transform = (\<lambda>texts. Inr (Tfidf texts)),
      tfidf_similarities = (\<lambda>vectors q. Inr [0.3, 0.9]),
      retrieve = (\<lambda>index q k. Inr (replicate 8 \<lparr>page_content = ''Support is open all week.'',
                                                     metadata = []\<rparr>)),
      greeting_reply = Api_content ''general'',
      farewell_reply = Api_content ''general'',
      relevance_reply = Api_content ''RELEVANT'',
      generation_reply = Api_failure\<rparr>"

text \<open>The service as it stands after loading the index.\<close>

definition sample_state :: rag where
  "sample_state =
     \<lparr>documents = [[''title'' \<mapsto> ''Document c1'', ''content'' \<mapsto> ''TechCorp builds software.'',
                    ''full_title'' \<mapsto> ''Document c1''],
                   [''title'' \<mapsto> ''Document c2'', ''content'' \<mapsto> ''Support is open all week.'',
                    ''full_title'' \<mapsto> ''Document c2'']],
      document_vectors = None,
      faiss_index = Holds sample_index,
      vector_dim = Some 384,
      knowledge_base_path = ''/app/src/services/../data'',
      disk = [''/app/src/services/../data/faiss_index'' \<mapsto> Saved sample_index],
      trace = []\<rparr>"

text \<open>The service without an index, on a pickled TF-IDF knowledge base.\<close>

definition legacy_state :: rag where
  "legacy_state =
     \<lparr>documents = [[''title'' \<mapsto> ''About - Part 1'', ''content'' \<mapsto> ''TechCorp builds software.'',
                    ''full_title'' \<mapsto> ''About'', ''processed_content'' \<mapsto> ''techcorp builds software.''],
                   [''title'' \<mapsto> ''About - Part 2'', ''content'' \<mapsto> ''Support is open all week.'',
                    ''full_title'' \<mapsto> ''About'', ''processed_content'' \<mapsto> ''support is open all week.'']],
      document_vectors = Some (Tfidf [''techcorp builds software.'', ''support is open all week.'']),
      faiss_index = Is_None,
      vector_dim = None,
      knowledge_base_path = ''/app/src/services/../data'',
      disk = Map.empty,
      trace = []\<rparr>"

text \<open>Whether the retriever raises on this query, when there is an index to ask.\<close>

definition faiss_search_raises :: "env \<Rightarrow> rag \<Rightarrow> string \<Rightarrow> int \<Rightarrow> bool" where
  "faiss_search_raises e s query top_k =
     (case faiss_index s of
        Holds index \<Rightarrow> (case retrieve e index query top_k of Inl x \<Rightarrow> True | Inr docs \<Rightarrow> False)
      | Absent \<Rightarrow> False
      | Is_None \<Rightarrow> False)"

text \<open>The sample environment with an embedding model that fails at query time.\<close>

definition failing_retriever_env :: env where
  "failing_retriever_env = sample_env\<lparr>retrieve := (\<lambda>index q k. Inl (Exn ''RuntimeError''))\<rparr>"

section \<open>Intent and relevance normalisation\<close>

text \<open>
  C10. For every value \<open>_chat\<close> can return, \<open>None\<close> included, \<open>analyze_query_intent\<close>
  returns one of the eight intent names, and it returns \<open>general\<close> whenever the lowercased
  reply is not one of them; \<open>check_relevance\<close> returns \<open>True\<close> exactly when the reply,
  stripped and lowercased, is \<open>relevant\<close>, and a falsy value in every other case.
\<close>

theorem intent_and_relevance_normalised:
  "analyze_query_intent result \<in> set valid_intents
   \<and> ((\<forall>r. result = Some r \<longrightarrow> py_lower r \<notin> set valid_intents)
        \<longrightarrow> analyze_query_intent result = ''general'')
   \<and> (check_relevance result = PyBool True
        \<longleftrightarrow> (\<exists>r. result = Some r \<and> py_lower (py_strip r) = ''relevant''))
   \<and> (check_relevance result \<noteq> PyBool True \<longrightarrow> \<not> truthy (check_relevance result))"
proof -
  have lower_nil: "py_lower [] = []"
    by (simp add: py_lower_def)
  have strip_nil: "py_strip [] = []"
    by (simp add: py_strip_def)
  have general: "''general'' \<in> set valid_intents"
    by (simp add: valid_intents_def)
  have a: "analyze_query_intent result \<in> set valid_intents"
    using general by (simp add: analyze_query_intent_def split: option.split)
  have b: "(\<forall>r. result = Some r \<longrightarrow> py_lower r \<notin> set valid_intents)
        \<longrightarrow> analyze_query_intent result = ''general''"
    by (simp add: analyze_query_intent_def split: option.split)
  have c: "check_relevance result = PyBool True
        \<longleftrightarrow> (\<exists>r. result = Some r \<and> py_lower (py_strip r) = ''relevant'')"
    by (cases result) (auto simp: check_relevance_def lower_nil strip_nil)
  have d: "check_relevance result \<noteq> PyBool True \<longrightarrow> \<not> truthy (check_relevance result)"
    by (cases result) (auto simp: check_relevance_def)
  from a b c d show ?thesis by blast
qed

theorem intent_and_relevance_normalised_witness:
  "py_lower ''Maybe'' \<notin> set valid_intents
   \<and> analyze_query_intent (Some ''Maybe'') = ''general''
   \<and> check_relevance (Some ''Maybe'') \<noteq> PyBool True
   \<and> \<not> truthy (check_relevance (Some ''Maybe''))"
proof -
  have h: "\<forall>r. Some ''Maybe'' = Some r \<longrightarrow> py_lower r \<notin> set valid_intents"
    by (simp add: py_lower_def py_lower_char_def valid_intents_def)
  have n: "check_relevance (Some ''Maybe'') \<noteq> PyBool True"
    by (simp add: check_relevance_def py_lower_def py_lower_char_def py_strip_def py_isspace_def)
  from intent_and_relevance_normalised [of "Some ''Maybe''"] h n show ?thesis
    by simp
qed

section \<open>Facts about the matcher\<close>

text \<open>A match consumes, for every single-character atom of the pattern, a character of that class.\<close>

lemma rmatch_needs_char:
  "rmatch ml r prev s = Some rest \<Longrightarrow> Ch p \<in> set r \<Longrightarrow> \<exists>c\<in>set s. p c"
proof (induction ml r prev s arbitrary: rest rule: rmatch.induct)
  case (3 ml q r prev c cs)
  then show ?case by (fastforce split: if_splits)
next
  case (5 ml q r prev c cs)
  then show ?case by (fastforce split: if_splits option.splits)
next
  case (7 ml q r prev c cs)
  then show ?case by (fastforce split: if_splits option.splits)
next
  case (9 ml a alts r prev s)
  then show ?case by (fastforce split: if_splits option.splits dest: in_set_dropD)
qed (auto split: if_splits)

lemma re_find_needs_char:
  "re_find ml r prev s = Some x \<Longrightarrow> Ch p \<in> set r \<Longrightarrow> \<exists>c\<in>set s. p c"
proof (induction s arbitrary: prev x)
  case Nil
  then show ?case by (auto split: option.splits dest: rmatch_needs_char)
next
  case (Cons c cs)
  then show ?case by (fastforce split: option.splits dest: rmatch_needs_char)
qed

lemma re_sub_no_char:
  assumes "Ch p \<in> set r" and "\<And>c. c \<in> set s \<Longrightarrow> \<not> p c"
  shows "re_sub ml r repl s = s"
proof -
  have "re_find ml r None s = None"
  proof (cases "re_find ml r None s")
    case (Some x)
    from re_find_needs_char [OF Some assms(1)] assms(2) show ?thesis by blast
  qed simp
  then show ?thesis by (simp add: re_sub_def re_sub_from.simps)
qed

text \<open>
  Completeness of the search for patterns built from case-insensitive literals and \<open>.*\<close>
  under DOTALL: where the phrases occur in order, the search succeeds.
\<close>

lemma lit_i_Nil: "lit_i [] = []"
  by (simp add: lit_i_def)

lemma lit_i_Cons: "lit_i (x # a) = Ch (\<lambda>d. py_lower_char d = py_lower_char x) # lit_i a"
  by (simp add: lit_i_def)

lemma rmatch_lit_i:
  assumes "\<And>prev. rmatch ml r prev s \<noteq> None"
  shows "py_lower u = py_lower a \<Longrightarrow> rmatch ml (lit_i a @ r) prev (u @ s) \<noteq> None"
proof (induction a arbitrary: u prev)
  case Nil
  then have "u = []" by (simp add: py_lower_def)
  then show ?case using assms by (simp add: lit_i_Nil)
next
  case (Cons x a)
  from Cons.prems obtain y u' where u: "u = y # u'"
    and y: "py_lower_char y = py_lower_char x" and u': "py_lower u' = py_lower a"
    by (cases u) (simp_all add: py_lower_def)
  have "rmatch ml (lit_i (x # a) @ r) prev (u @ s) = rmatch ml (lit_i a @ r) (Some y) (u' @ s)"
    by (simp add: lit_i_Cons u y)
  with Cons.IH [OF u'] show ?case by simp
qed

lemma any_char_holds: "any_char c"
  by (simp add: any_char_def)

lemma any_char_if: "(if any_char c then x else y) = x"
  by (simp add: any_char_def)

lemma rmatch_star_any:
  assumes "\<And>prev. rmatch ml r prev s2 \<noteq> None"
  shows "rmatch ml (Star any_char # r) prev (s1 @ s2) \<noteq> None"
proof (induction s1 arbitrary: prev)
  case Nil
  show ?case
  proof (cases s2)
    case Nil
    with assms [of prev] show ?thesis by simp
  next
    case (Cons c cs)
    with assms [of prev] show ?thesis
      by (cases "rmatch ml (Star any_char # r) (Some c) cs") (simp_all add: any_char_if)
  qed
next
  case (Cons x s1)
  from Cons.IH [of "Some x"] obtain rest
    where "rmatch ml (Star any_char # r) (Some x) (s1 @ s2) = Some rest"
    by blast
  then show ?case by (simp add: any_char_if)
qed

lemma re_find_complete:
  assumes "\<And>prev. rmatch ml r prev s2 \<noteq> None"
  shows "re_find ml r prev (s1 @ s2) \<noteq> None"
proof (induction s1 arbitrary: prev)
  case Nil
  from assms [of prev] obtain rest where "rmatch ml r prev s2 = Some rest" by blast
  then show ?case by (cases s2) simp_all
next
  case (Cons x s1)
  from Cons.IH [of "Some x"] obtain found
    where f: "re_find ml r (Some x) (s1 @ s2) = Some found" by blast
  show ?case
  proof (cases "rmatch ml r prev (x # s1 @ s2)")
    case None
    with f show ?thesis by (cases found) simp
  next
    case (Some rest)
    then show ?thesis by simp
  qed
qed

lemma has_signature_phrases:
  assumes a: "py_lower a = py_lower ''best regards''"
    and b: "py_lower b = py_lower ''techcorp''"
    and c: "py_lower c = py_lower ''service''"
  shows "has_signature (p @ a @ q @ b @ r @ c @ t)"
proof -
  have 0: "rmatch False [] prev t \<noteq> None" for prev
    by simp
  have 1: "rmatch False (lit_i ''service'' @ []) prev (c @ t) \<noteq> None" for prev
    using 0 c by (rule rmatch_lit_i)
  have 2: "rmatch False (Star any_char # lit_i ''service'' @ []) prev (r @ c @ t) \<noteq> None" for prev
    using 1 by (rule rmatch_star_any)
  have 3: "rmatch False (lit_i ''techcorp'' @ Star any_char # lit_i ''service'' @ []) prev
             (b @ r @ c @ t) \<noteq> None" for prev
    using 2 b by (rule rmatch_lit_i)
  have 4: "rmatch False (Star any_char # lit_i ''techcorp'' @ Star any_char # lit_i ''service'' @ [])
             prev (q @ b @ r @ c @ t) \<noteq> None" for prev
    using 3 by (rule rmatch_star_any)
  have 5: "rmatch False (lit_i ''best regards'' @ Star any_char # lit_i ''techcorp''
             @ Star any_char # lit_i ''service'' @ []) prev (a @ q @ b @ r @ c @ t) \<noteq> None" for prev
    using 4 a by (rule rmatch_lit_i)
  have "re_find False (lit_i ''best regards'' @ Star any_char # lit_i ''techcorp''
             @ Star any_char # lit_i ''service'' @ []) None (p @ a @ q @ b @ r @ c @ t) \<noteq> None"
    using 5 by (rule re_find_complete)
  then show ?thesis by (simp add: has_signature_def re_search_def)
qed

section \<open>Response post-processing\<close>

text \<open>
  A reply without an opening bracket and without a newline passes the three substitution
  stages unchanged: every placeholder pattern needs a bracket, every signature pattern a
  newline.
\<close>

lemma lower_bracket: "py_lower_char c = py_lower_char CHR ''['' \<Longrightarrow> c = CHR ''[''"
proof -
  assume a: "py_lower_char c = py_lower_char CHR ''[''"
  define n where "n = (of_char c :: nat)"
  have b: "py_lower_char CHR ''['' = CHR ''[''"
    by (simp add: py_lower_char_def)
  show ?thesis
  proof (cases "(65 \<le> n \<and> n \<le> 90) \<or> (192 \<le> n \<and> n \<le> 222 \<and> n \<noteq> 215)")
    case True
    then have "py_lower_char c = char_of (n + 32)"
      by (simp add: py_lower_char_def Let_def n_def)
    with a b have "char_of (n + 32) = CHR ''[''" by simp
    then have "(of_char (char_of (n + 32) :: char) :: nat) = of_char CHR ''[''"
      by simp
    then have m: "(n + 32) mod 256 = 91" by simp
    from True have "n + 32 < 256" by auto
    then have "(n + 32) mod 256 = n + 32" by simp
    with m True have False by auto
    then show ?thesis ..
  next
    case False
    then have "py_lower_char c = c"
      by (auto simp: py_lower_char_def Let_def n_def)
    with a b show ?thesis by simp
  qed
qed

lemma placeholder_free:
  assumes "CHR ''['' \<notin> set s"
  shows "replace_placeholders s = s"
proof -
  have "re_sub False (lit_i (CHR ''['' # w)) repl s = s" for w repl
  proof (rule re_sub_no_char)
    show "Ch (\<lambda>d. py_lower_char d = py_lower_char CHR ''['') \<in> set (lit_i (CHR ''['' # w))"
      by (simp add: lit_i_Cons)
    show "\<not> py_lower_char c = py_lower_char CHR ''[''" if "c \<in> set s" for c
      using that assms lower_bracket by blast
  qed
  then show ?thesis
    by (simp add: replace_placeholders_def placeholder_patterns_def)
qed

lemma leading_kept:
  assumes "CHR 0x0A \<notin> set s"
  shows "strip_leading_signatures s = s"
proof -
  have "re_sub False (leading_signature w) repl s = s" for w repl
  proof (rule re_sub_no_char)
    show "Ch newline \<in> set (leading_signature w)"
      by (simp add: leading_signature_def)
    show "\<not> newline c" if "c \<in> set s" for c
      using that assms by (auto simp: newline_def)
  qed
  then show ?thesis by (simp add: strip_leading_signatures_def)
qed

lemma trailing_kept:
  assumes "CHR 0x0A \<notin> set s"
  shows "strip_trailing_signatures s = s"
proof -
  have "re_sub True (nl_ws @ r) repl s = s" for r repl
  proof (rule re_sub_no_char)
    show "Ch newline \<in> set (nl_ws @ r)"
      by (simp add: nl_ws_def)
    show "\<not> newline c" if "c \<in> set s" for c
      using that assms by (auto simp: newline_def)
  qed
  then show ?thesis
    by (simp add: strip_trailing_signatures_def signature_patterns_def final_signature_pattern_def)
qed

lemma one_line_reply_kept:
  assumes "CHR ''['' \<notin> set s" and "CHR 0x0A \<notin> set s" and "py_strip s = s"
    and "20 < length s" and "\<not> re_match False markdown_header s"
    and "has_signature s"
  shows "clean_response s = s"
proof -
  have c: "cleaned_text s = s"
    using assms(1-3) by (simp add: cleaned_text_def placeholder_free leading_kept trailing_kept)
  have "length (py_lower s) = length s"
    by (simp add: py_lower_def)
  with assms(4) have "py_lower s \<notin> set ['''', ''dear customer'', ''dear valued customer'']"
    by auto
  with assms(4,5) have "\<not> needs_fallback s"
    by (simp add: needs_fallback_def)
  moreover from assms(4) have "s \<noteq> []" by auto
  ultimately show ?thesis
    using c assms(6) by (simp add: clean_response_def)
qed

text \<open>
  C3. The claim promises that every reply that is not replaced by the fallback comes back
  ending with the signature \<open>Best regards,\<newline>TechCorp Solutions Customer Service\<close>. The
  code does not add the signature when the cleaned text matches
  \<open>best regards.*techcorp.*service\<close> anywhere: the one-line reply below mentions the three
  phrases in its body, passes the gate, and is returned unchanged, with no signature at
  its end.
\<close>

theorem clean_response_keeps_unsigned_reply:
  "clean_response ''Our team sends best regards. TechCorp offers cloud migration as a service.''
     = ''Our team sends best regards. TechCorp offers cloud migration as a service.''
   \<and> \<not> suffix signature_text
         (clean_response ''Our team sends best regards. TechCorp offers cloud migration as a service.'')"
proof -
  let ?s = "''Our team sends best regards. TechCorp offers cloud migration as a service.''"
  have 1: "CHR ''['' \<notin> set ?s" by simp
  have 2: "CHR 0x0A \<notin> set ?s" by simp
  have 3: "py_strip ?s = ?s" by (simp add: py_strip_def py_isspace_def)
  have 4: "20 < length ?s" by simp
  have 5: "\<not> re_match False markdown_header ?s"
    by (simp add: re_match_def markdown_header_def)
  have l: "py_lower ''TechCorp'' = py_lower ''techcorp''"
    by code_simp
  have "has_signature (''Our team sends '' @ ''best regards'' @ ''. '' @ ''TechCorp''
          @ '' offers cloud migration as a '' @ ''service'' @ ''.'')"
    by (rule has_signature_phrases) (simp_all add: l)
  then have 6: "has_signature ?s" by simp
  have k: "clean_response ?s = ?s"
    using 1 2 3 4 5 6 by (rule one_line_reply_kept)
  have "\<not> suffix signature_text ?s"
    by (simp add: signature_text_def suffix_to_prefix)
  with k show ?thesis by simp
qed

section \<open>Vector search\<close>

text \<open>The loop of \<open>search_documents_faiss\<close> keeps the first six retrieved documents.\<close>

lemma rank_gate: "(0.8 - real i * 0.1 > (0.2::real)) = (i < 6)"
proof -
  have "(0.8 - real i * 0.1 > (0.2::real)) = (real i < 6)" by auto
  thus ?thesis by simp
qed

lemma faiss_step_pair:
  "faiss_step (rs, m) (i, d)
     = (if i < 6 then (rs @ [faiss_hit i d], max m (0.8 - real i * 0.1)) else (rs, m))"
  by (simp add: faiss_step_def Let_def rank_gate)

lemma faiss_fold_fst:
  "fst (foldl faiss_step (rs, m) xs)
     = rs @ map (\<lambda>(i, d). faiss_hit i d) (filter (\<lambda>(i, d). i < 6) xs)"
proof (induction xs arbitrary: rs m)
  case Nil
  show ?case by simp
next
  case (Cons x xs)
  obtain i d where x: "x = (i, d)" by (cases x)
  show ?case
    by (cases "i < 6") (simp_all add: x faiss_step_pair Cons.IH)
qed

lemma faiss_fold_snd_mono: "m \<le> snd (foldl faiss_step (rs, m) xs)"
proof (induction xs arbitrary: rs m)
  case Nil
  show ?case by simp
next
  case (Cons x xs)
  obtain i d where x: "x = (i, d)" by (cases x)
  show ?case
  proof (cases "i < 6")
    case True
    have "m \<le> max m (0.8 - real i * 0.1)" by simp
    also have "\<dots> \<le> snd (foldl faiss_step (rs @ [faiss_hit i d], max m (0.8 - real i * 0.1)) xs)"
      by (rule Cons.IH)
    finally show ?thesis using True by (simp add: x faiss_step_pair)
  next
    case False
    thus ?thesis using Cons.IH [of m rs] by (simp add: x faiss_step_pair)
  qed
qed

lemma faiss_fold_snd_first:
  "docs \<noteq> [] \<Longrightarrow> 0.8 \<le> snd (foldl faiss_step ([], 0) (enumerate 0 docs))"
proof (cases docs)
  case Nil
  assume "docs \<noteq> []"
  with Nil show ?thesis by simp
next
  case (Cons d ds)
  have "foldl faiss_step ([], 0) (enumerate 0 docs)
          = foldl faiss_step ([faiss_hit 0 d], 0.8) (enumerate 1 ds)"
    by (simp add: Cons faiss_step_pair)
  thus ?thesis using faiss_fold_snd_mono [of "0.8" "[faiss_hit 0 d]" "enumerate 1 ds"] by simp
qed

lemma filter_enumerate_lt:
  "filter (\<lambda>(i, d). i < k) (enumerate n xs) = enumerate n (take (k - n) xs)"
proof (induction xs arbitrary: n)
  case Nil
  show ?case by simp
next
  case (Cons x xs)
  show ?case
  proof (cases "n < k")
    case True
    then obtain j where j: "k - n = Suc j" by (cases "k - n") auto
    hence "k - Suc n = j" by simp
    thus ?thesis using True j by (simp add: Cons.IH)
  next
    case False
    hence "filter (\<lambda>(i, d). i < k) (enumerate (Suc n) xs) = []"
      using Cons.IH [of "Suc n"] by simp
    thus ?thesis using False by simp
  qed
qed

lemma faiss_results:
  assumes "faiss_index s = Holds index" and "documents s \<noteq> []"
    and "retrieve e index query top_k = Inr docs"
  shows "fst (search_documents_faiss e s query top_k)
           = map (\<lambda>(i, d). faiss_hit i d) (enumerate 0 (take 6 docs))"
proof (cases "docs = []")
  case True
  thus ?thesis using assms
    by (simp add: search_documents_faiss_def log_def Let_def)
next
  case False
  obtain rs m where f: "foldl faiss_step ([], 0) (enumerate 0 docs) = (rs, m)"
    by (cases "foldl faiss_step ([], 0) (enumerate 0 docs)")
  have "0.8 \<le> m" using faiss_fold_snd_first [OF False] f by simp
  hence m: "\<not> m < 0.4" by simp
  have "rs = map (\<lambda>(i, d). faiss_hit i d) (enumerate 0 (take 6 docs))"
    using faiss_fold_fst [of "[]" 0 "enumerate 0 docs"] f
    by (simp add: filter_enumerate_lt)
  thus ?thesis using assms f m
    by (simp add: search_documents_faiss_def log_def Let_def)
qed

lemma faiss_similarities:
  "map hit_similarity (map (\<lambda>(i, d). faiss_hit i d) (enumerate n ds))
     = map (\<lambda>i. 0.8 - real i * 0.1) [n..<n + length ds]"
  by (induction ds arbitrary: n) (simp_all add: faiss_hit_def upt_rec)

text \<open>
  C9. When the index is there (and the document list is not empty) and the retriever
  returns documents, the similarities of the results of \<open>search_documents_faiss\<close> are
  0.8 minus 0.1 times the rank: strictly decreasing from 0.8. There are as many results as
  retrieved documents up to six, never more, whatever \<open>top_k\<close> is, and at least one when
  the retriever returns at least one document. Scores are reals here; the float values
  of the six ranks lie on the same sides of the two thresholds.
\<close>

theorem faiss_similarity_from_rank:
  assumes "faiss_index s = Holds index" and "documents s \<noteq> []"
    and "retrieve e index query top_k = Inr docs"
  shows "map hit_similarity (fst (search_documents_faiss e s query top_k))
           = map (\<lambda>i. 0.8 - real i * 0.1) [0..<length (fst (search_documents_faiss e s query top_k))]
         \<and> sorted_wrt (>) (map hit_similarity (fst (search_documents_faiss e s query top_k)))
         \<and> length (fst (search_documents_faiss e s query top_k)) = min (length docs) 6
         \<and> length (fst (search_documents_faiss e s query top_k)) \<le> 6
         \<and> (docs \<noteq> [] \<longrightarrow> fst (search_documents_faiss e s query top_k) \<noteq> [])"
proof -
  let ?rs = "fst (search_documents_faiss e s query top_k)"
  have rs: "?rs = map (\<lambda>(i, d). faiss_hit i d) (enumerate 0 (take 6 docs))"
    using assms by (rule faiss_results)
  have len: "length ?rs = min (length docs) 6" by (simp add: rs)
  have sims: "map hit_similarity ?rs = map (\<lambda>i. 0.8 - real i * 0.1) [0..<length ?rs]"
    unfolding len unfolding rs using faiss_similarities [of 0 "take 6 docs"] by simp
  have "sorted_wrt (>) (map (\<lambda>i. 0.8 - real i * 0.1) [0..<n])" for n
    by (simp add: sorted_wrt_map sorted_wrt_upt)
  hence dec: "sorted_wrt (>) (map hit_similarity ?rs)" using sims by simp
  have ne: "docs \<noteq> [] \<longrightarrow> ?rs \<noteq> []"
  proof
    assume "docs \<noteq> []"
    hence "0 < length ?rs" unfolding len by simp
    thus "?rs \<noteq> []" by blast
  qed
  from sims dec len ne show ?thesis by simp
qed

theorem faiss_similarity_from_rank_witness:
  "faiss_index sample_state = Holds sample_index
   \<and> documents sample_state \<noteq> []
   \<and> retrieve sample_env sample_index ''support hours'' 8
        = Inr (replicate 8 \<lparr>page_content = ''Support is open all week.'', metadata = []\<rparr>)
   \<and> map hit_similarity (fst (search_documents_faiss sample_env sample_state ''support hours'' 8))
        = [0.8, 0.7, 0.6, 0.5, 0.4, 0.3]
   \<and> length (fst (search_documents_faiss sample_env sample_state ''support hours'' 8)) = 6"
proof -
  have h: "faiss_index sample_state = Holds sample_index" "documents sample_state \<noteq> []"
    "retrieve sample_env sample_index ''support hours'' 8
        = Inr (replicate 8 \<lparr>page_content = ''Support is open all week.'', metadata = []\<rparr>)"
    by (simp_all add: sample_state_def sample_env_def)
  have u: "[0..<6] = [0, 1, 2, 3, 4, 5]" by (simp add: upt_rec)
  from faiss_similarity_from_rank [OF h] h u show ?thesis by simp
qed

end
